theory Spec2Isabelle
  imports Main "HOL-Library.Word"
begin

section \<open>The abstract machine\<close>

text \<open>
  The two translation units (\<^verbatim>\<open>user_service.h\<close>, \<^verbatim>\<open>user_service.cpp\<close>) are
  embedded over a small model of the C++ abstract machine. Every operation whose
  behaviour the language leaves undefined is a branch of the model: it stops the
  execution and yields the kind of fault together with the observable world at the
  moment of the fault. This is the reading under which a fault is shown to be reached.
  What a build without checks does after a write past the end of an array, or with a
  variable that was never assigned, is the subject of a second reading, given further
  down for the two functions that copy into arrays on the stack.
\<close>

datatype ub =
    BufferOverflow   \<comment> \<open>a write past the end of an array\<close>
  | OverRead         \<comment> \<open>a read past the end of an array\<close>
  | NullDeref        \<comment> \<open>an access through a null pointer\<close>
  | UninitRead       \<comment> \<open>a read of an indeterminate value\<close>
  | UseAfterFree     \<comment> \<open>an access to storage whose lifetime has ended\<close>
  | InvalidPointer   \<comment> \<open>an access through a pointer to no object\<close>
  | InvalidFree      \<comment> \<open>\<^verbatim>\<open>delete[]\<close> of something that is not a live allocation\<close>
  | MissingReturn    \<comment> \<open>flowing off the end of a function that returns a value\<close>
  | BadFormat        \<comment> \<open>a conversion specification without a matching argument\<close>

text \<open>\<^verbatim>\<open>int\<close> is a 32-bit two's complement integer, read with \<^term>\<open>sint\<close>.\<close>

type_synonym c_int = "32 word"

text \<open>
  A byte of an array is either indeterminate (\<^term>\<open>None\<close>: never written) or holds a
  value. A \<^verbatim>\<open>char*\<close> argument is null (\<^term>\<open>None\<close>) or points to the first of the
  bytes that can be read through it.
\<close>

type_synonym buffer = "char option list"
type_synonym char_ptr = "char list option"

abbreviation NUL :: char where
  "NUL \<equiv> CHR 0x00"

record block =
  bytes :: buffer
  live :: bool

text \<open>
  The observable world: what has been printed, the commands handed to \<^verbatim>\<open>system\<close>, and
  the free store. A heap pointer is the index of its block.
\<close>

record world =
  stdout :: string
  sys_calls :: "string list"
  heap :: "block list"

type_synonym 'a result = "(ub \<times> world) + 'a"

definition world_init :: world where
  "world_init = \<lparr>stdout = [], sys_calls = [], heap = []\<rparr>"

subsection \<open>The C library functions the code calls\<close>

text \<open>\<^verbatim>\<open>strcpy\<close>: byte by byte up to and including the terminator.\<close>

fun strcpy :: "buffer \<Rightarrow> char list \<Rightarrow> ub + buffer" where
  "strcpy dst [] = Inl OverRead"
| "strcpy [] (c # cs) = Inl BufferOverflow"
| "strcpy (d # ds) (c # cs) =
     (if c = NUL then Inr (Some NUL # ds)
      else case strcpy ds cs of Inl e \<Rightarrow> Inl e | Inr r \<Rightarrow> Inr (Some c # r))"

text \<open>\<^verbatim>\<open>strcmp\<close>: the difference of the first two bytes that differ, as unsigned chars.\<close>

fun strcmp :: "char list \<Rightarrow> char list \<Rightarrow> ub + int" where
  "strcmp [] ys = Inl OverRead"
| "strcmp (x # xs) [] = Inl OverRead"
| "strcmp (x # xs) (y # ys) =
     (if x \<noteq> y then Inr (int (of_char x) - int (of_char y))
      else if x = NUL then Inr 0
      else strcmp xs ys)"

text \<open>Reading a string: from a pointer's bytes, and from an array that may hold
  indeterminate bytes.\<close>

fun c_str :: "char list \<Rightarrow> ub + string" where
  "c_str [] = Inl OverRead"
| "c_str (c # cs) =
     (if c = NUL then Inr []
      else case c_str cs of Inl e \<Rightarrow> Inl e | Inr r \<Rightarrow> Inr (c # r))"

fun buffer_str :: "buffer \<Rightarrow> ub + string" where
  "buffer_str [] = Inl OverRead"
| "buffer_str (None # bs) = Inl UninitRead"
| "buffer_str (Some c # bs) =
     (if c = NUL then Inr []
      else case buffer_str bs of Inl e \<Rightarrow> Inl e | Inr r \<Rightarrow> Inr (c # r))"

text \<open>The decimal text of \<^verbatim>\<open>%d\<close>.\<close>

definition digit :: "nat \<Rightarrow> char" where
  "digit d = char_of (48 + d)"

fun dec_nat :: "nat \<Rightarrow> string" where
  "dec_nat n = (if n < 10 then [digit n] else dec_nat (n div 10) @ [digit (n mod 10)])"

declare dec_nat.simps [simp del]

definition dec_int :: "int \<Rightarrow> string" where
  "dec_int i = (if i < 0 then CHR ''-'' # dec_nat (nat (- i)) else dec_nat (nat i))"

text \<open>
  The \<^verbatim>\<open>printf\<close> family's formatting, for the conversions the code uses: \<^verbatim>\<open>%s\<close> and
  \<^verbatim>\<open>%d\<close>. Any other byte after \<^verbatim>\<open>%\<close>, or an argument of the wrong kind, is undefined.
\<close>

datatype fmt_arg = ArgStr char_ptr | ArgInt c_int

fun vformat :: "string \<Rightarrow> fmt_arg list \<Rightarrow> ub + string" where
  "vformat [] as = Inr []"
| "vformat [c] as = (if c = CHR ''%'' then Inl BadFormat else Inr [c])"
| "vformat (c # d # fs) as =
     (if c \<noteq> CHR ''%'' then
        (case vformat (d # fs) as of Inl e \<Rightarrow> Inl e | Inr r \<Rightarrow> Inr (c # r))
      else if d = CHR ''s'' then
        (case as of
           ArgStr None # as' \<Rightarrow> Inl NullDeref
         | ArgStr (Some bs) # as' \<Rightarrow>
             (case c_str bs of
                Inl e \<Rightarrow> Inl e
              | Inr s \<Rightarrow> (case vformat fs as' of Inl e \<Rightarrow> Inl e | Inr r \<Rightarrow> Inr (s @ r)))
         | _ \<Rightarrow> Inl BadFormat)
      else if d = CHR ''d'' then
        (case as of
           ArgInt i # as' \<Rightarrow>
             (case vformat fs as' of Inl e \<Rightarrow> Inl e | Inr r \<Rightarrow> Inr (dec_int (sint i) @ r))
         | _ \<Rightarrow> Inl BadFormat)
      else Inl BadFormat)"

text \<open>\<^verbatim>\<open>sprintf\<close> writes the formatted text and a terminator to the front of an array.\<close>

definition sprintf :: "buffer \<Rightarrow> string \<Rightarrow> fmt_arg list \<Rightarrow> ub + buffer" where
  "sprintf dst fmt as =
     (case vformat fmt as of
        Inl e \<Rightarrow> Inl e
      | Inr s \<Rightarrow>
          if length dst < length s + 1 then Inl BufferOverflow
          else Inr (map Some (s @ [NUL]) @ drop (length s + 1) dst))"

definition printf :: "string \<Rightarrow> fmt_arg list \<Rightarrow> world \<Rightarrow> world result" where
  "printf fmt as w =
     (case vformat fmt as of
        Inl e \<Rightarrow> Inl (e, w)
      | Inr s \<Rightarrow> Inr (w\<lparr>stdout := stdout w @ s\<rparr>))"

text \<open>\<^verbatim>\<open>system\<close> reads its command as a string; the command is recorded.\<close>

definition system :: "buffer \<Rightarrow> world \<Rightarrow> world result" where
  "system command w =
     (case buffer_str command of
        Inl e \<Rightarrow> Inl (e, w)
      | Inr s \<Rightarrow> Inr (w\<lparr>sys_calls := sys_calls w @ [s]\<rparr>))"

text \<open>
  \<^verbatim>\<open>memcpy\<close> takes its count as \<^verbatim>\<open>size_t\<close> (64 bits): a negative \<^verbatim>\<open>int\<close> converts
  to a count of \<open>2^63\<close> or more.
\<close>

definition size_t_of_int :: "c_int \<Rightarrow> nat" where
  "size_t_of_int i = nat (sint i mod 2 ^ 64)"

subsection \<open>The free store\<close>

definition new_char_array :: "nat \<Rightarrow> world \<Rightarrow> nat \<times> world" where
  "new_char_array n w =
     (length (heap w), w\<lparr>heap := heap w @ [\<lparr>bytes = replicate n None, live = True\<rparr>]\<rparr>)"

definition delete_array :: "nat \<Rightarrow> world \<Rightarrow> world result" where
  "delete_array p w =
     (if p < length (heap w) \<and> live (heap w ! p)
      then Inr (w\<lparr>heap := (heap w)[p := (heap w ! p)\<lparr>live := False\<rparr>]\<rparr>)
      else Inl (InvalidFree, w))"

text \<open>An access through a heap pointer: the block must exist and be live.\<close>

definition heap_block :: "world \<Rightarrow> nat \<Rightarrow> ub + block" where
  "heap_block w p =
     (if length (heap w) \<le> p then Inl InvalidPointer
      else if \<not> live (heap w ! p) then Inl UseAfterFree
      else Inr (heap w ! p))"

definition heap_sprintf :: "nat \<Rightarrow> string \<Rightarrow> fmt_arg list \<Rightarrow> world \<Rightarrow> world result" where
  "heap_sprintf p fmt as w =
     (case heap_block w p of
        Inl e \<Rightarrow> Inl (e, w)
      | Inr b \<Rightarrow>
          (case sprintf (bytes b) fmt as of
             Inl e \<Rightarrow> Inl (e, w)
           | Inr bs \<Rightarrow> Inr (w\<lparr>heap := (heap w)[p := b\<lparr>bytes := bs\<rparr>]\<rparr>)))"

definition heap_str :: "world \<Rightarrow> nat \<Rightarrow> ub + string" where
  "heap_str w p = (case heap_block w p of Inl e \<Rightarrow> Inl e | Inr b \<Rightarrow> buffer_str (bytes b))"

section \<open>The program\<close>

subsection \<open>user_service.h\<close>

text \<open>
  \<^verbatim>\<open>Database\<close> is declared nowhere; the member \<^verbatim>\<open>db\<close> has no initialiser and no
  function touches it, so all that is kept of it is that it is a raw pointer.
\<close>

datatype raw_ptr = Indeterminate | NullPtr | Addr nat

record UserService =
  adminPassword :: char_ptr
  db :: raw_ptr

text \<open>The default constructor: the default member initialiser of \<^verbatim>\<open>adminPassword\<close>
  points it at the literal; \<^verbatim>\<open>db\<close> is left indeterminate.\<close>

definition UserService_init :: UserService where
  "UserService_init =
     \<lparr>adminPassword = Some (''SuperSecret123!'' @ [NUL]), db = Indeterminate\<rparr>"

definition buildQuery :: "string \<Rightarrow> string" where
  "buildQuery userInput = ''SELECT * FROM users WHERE id = '' @ userInput"

subsection \<open>user_service.cpp\<close>

text \<open>
  A member function takes the object and returns it with its result: none of the three
  is \<^verbatim>\<open>const\<close>, so that the object comes back unchanged is a property to prove.
\<close>

definition authenticateUser ::
  "UserService \<Rightarrow> char_ptr \<Rightarrow> char_ptr \<Rightarrow> world \<Rightarrow> (unit \<times> UserService \<times> world) result" where
  "authenticateUser this username password w =
     (case username of
        None \<Rightarrow> Inl (NullDeref, w)
      | Some u \<Rightarrow>
     (case strcpy (replicate 32 None) u of
        Inl e \<Rightarrow> Inl (e, w)
      | Inr buffer \<Rightarrow>
     (case sprintf (replicate 256 None) ''auth_check %s'' [ArgStr username] of
        Inl e \<Rightarrow> Inl (e, w)
      | Inr command \<Rightarrow>
     (case system command w of
        Inl f \<Rightarrow> Inl f
      | Inr w1 \<Rightarrow>
     (case password of
        None \<Rightarrow> Inl (NullDeref, w1)
      | Some p \<Rightarrow>
     (case strcmp p (''admin123'' @ [NUL]) of
        Inl e \<Rightarrow> Inl (e, w1)
      | Inr r \<Rightarrow>
          if r = 0 then
            (case printf ''Admin access granted\<newline>'' [] w1 of
               Inl f \<Rightarrow> Inl f
             | Inr w2 \<Rightarrow> Inr ((), this, w2))
          else Inr ((), this, w1)))))))"

definition getUserToken ::
  "UserService \<Rightarrow> c_int \<Rightarrow> world \<Rightarrow> (nat \<times> UserService \<times> world) result" where
  "getUserToken this userId w =
     (case new_char_array 64 w of
        (token, w1) \<Rightarrow>
     (case heap_sprintf token ''token_%d'' [ArgInt userId] w1 of
        Inl f \<Rightarrow> Inl f
      | Inr w2 \<Rightarrow>
     (case delete_array token w2 of
        Inl f \<Rightarrow> Inl f
      | Inr w3 \<Rightarrow> Inr (token, this, w3))))"

text \<open>\<^verbatim>\<open>std::string(adminPassword)\<close> reads the bytes up to the terminator.\<close>

definition getSecretKey ::
  "UserService \<Rightarrow> world \<Rightarrow> (string \<times> UserService \<times> world) result" where
  "getSecretKey this w =
     (case adminPassword this of
        Some bs \<Rightarrow>
          (case c_str bs of
             Inl e \<Rightarrow> Inl (e, w)
           | Inr s \<Rightarrow> Inr (s, this, w))
      | None \<Rightarrow> Inl (MissingReturn, w))"

text \<open>
  \<^verbatim>\<open>ServiceConfig\<close> is declared nowhere. The code reads one member of it, \<^verbatim>\<open>port\<close>,
  and prints it with \<^verbatim>\<open>%d\<close>; the record is extensible, so whatever else the type
  holds is left open.
\<close>

record ServiceConfig =
  port :: c_int

definition connectToService :: "'a ServiceConfig_scheme option \<Rightarrow> world \<Rightarrow> world result" where
  "connectToService config w =
     (case (if config = None then printf ''Config is null\<newline>'' [] w else Inr w) of
        Inl f \<Rightarrow> Inl f
      | Inr w1 \<Rightarrow>
          (case config of
             None \<Rightarrow> Inl (NullDeref, w1)
           | Some c \<Rightarrow> printf ''Port: %d\<newline>'' [ArgInt (port c)] w1))"


text \<open>
  A client of a \<^verbatim>\<open>UserService\<close> object can do nothing to it but call its three public
  member functions; \<open>calls\<close> runs a sequence of such calls, stopping at the first
  fault.
\<close>

datatype member_call =
    AuthenticateUser char_ptr char_ptr
  | GetUserToken c_int
  | GetSecretKey

fun call :: "member_call \<Rightarrow> UserService \<Rightarrow> world \<Rightarrow> (UserService \<times> world) result" where
  "call (AuthenticateUser username password) this w =
     (case authenticateUser this username password w of
        Inl f \<Rightarrow> Inl f
      | Inr (r, this', w') \<Rightarrow> Inr (this', w'))"
| "call (GetUserToken userId) this w =
     (case getUserToken this userId w of
        Inl f \<Rightarrow> Inl f
      | Inr (r, this', w') \<Rightarrow> Inr (this', w'))"
| "call GetSecretKey this w =
     (case getSecretKey this w of
        Inl f \<Rightarrow> Inl f
      | Inr (r, this', w') \<Rightarrow> Inr (this', w'))"

fun calls :: "member_call list \<Rightarrow> UserService \<Rightarrow> world \<Rightarrow> (UserService \<times> world) result" where
  "calls [] this w = Inr (this, w)"
| "calls (c # cs) this w =
     (case call c this w of
        Inl f \<Rightarrow> Inl f
      | Inr (this', w') \<Rightarrow> calls cs this' w')"

section \<open>A build without checks\<close>

text \<open>
  In a build that checks nothing, a write past the end of an array does not stop the
  run: the bytes land in the storage that follows the array. In this reading the memory
  at an array is a list that may be longer than the array: its bytes, then what has been
  written past its end. The overrun is recorded and the run goes on. That storage is
  taken to belong to nothing else the function uses, and to have no end: which variable
  or return address a build keeps there, and how far a copy can go before it leaves the
  stack, is a matter of the build's layout and is not modelled. A read of a variable
  that was never assigned is recorded too, and gives the value that its storage holds at
  that moment, which is a parameter of the run. What still ends the run: an access
  through a null pointer, a read past the last byte that can be read through a pointer,
  and a copy of \<open>2^63\<close> bytes or more, which is more than any object has.
\<close>

type_synonym 'a run = "ub list \<times> 'a result"

definition overrun :: "nat \<Rightarrow> buffer \<Rightarrow> ub list" where
  "overrun n mem = (if n < length mem then [BufferOverflow] else [])"

fun strcpy_run :: "buffer \<Rightarrow> char list \<Rightarrow> ub + buffer" where
  "strcpy_run dst [] = Inl OverRead"
| "strcpy_run dst (c # cs) =
     (if c = NUL then Inr (Some NUL # tl dst)
      else case strcpy_run (tl dst) cs of Inl e \<Rightarrow> Inl e | Inr r \<Rightarrow> Inr (Some c # r))"

definition sprintf_run :: "buffer \<Rightarrow> string \<Rightarrow> fmt_arg list \<Rightarrow> ub + buffer" where
  "sprintf_run dst fmt as =
     (case vformat fmt as of
        Inl e \<Rightarrow> Inl e
      | Inr s \<Rightarrow> Inr (map Some (s @ [NUL]) @ drop (length s + 1) dst))"

text \<open>A count of zero touches neither array.\<close>

definition memcpy_run :: "buffer \<Rightarrow> char_ptr \<Rightarrow> nat \<Rightarrow> ub + buffer" where
  "memcpy_run dst src n =
     (if n = 0 then Inr dst
      else if 2 ^ 63 \<le> n then Inl BufferOverflow
      else case src of
        None \<Rightarrow> Inl NullDeref
      | Some bs \<Rightarrow>
          if length bs < n then Inl OverRead
          else Inr (map Some (take n bs) @ drop n dst))"

text \<open>Reading a local variable: \<^term>\<open>None\<close> is a variable that was declared without
  an initialiser and never assigned; \<open>held\<close> is what its storage holds.\<close>

definition read_local :: "'a \<Rightarrow> 'a option \<Rightarrow> ub list \<times> 'a" where
  "read_local held v = (case v of None \<Rightarrow> ([UninitRead], held) | Some x \<Rightarrow> ([], x))"

text \<open>\<^verbatim>\<open>authenticateUser\<close> again, statement for statement, in this reading.\<close>

definition authenticateUser_run ::
  "UserService \<Rightarrow> char_ptr \<Rightarrow> char_ptr \<Rightarrow> world \<Rightarrow> (unit \<times> UserService \<times> world) run" where
  "authenticateUser_run this username password w =
     (case username of
        None \<Rightarrow> ([], Inl (NullDeref, w))
      | Some u \<Rightarrow>
     (case strcpy_run (replicate 32 None) u of
        Inl e \<Rightarrow> ([], Inl (e, w))
      | Inr buffer \<Rightarrow>
     (case sprintf_run (replicate 256 None) ''auth_check %s'' [ArgStr username] of
        Inl e \<Rightarrow> (overrun 32 buffer, Inl (e, w))
      | Inr command \<Rightarrow>
          (overrun 32 buffer @ overrun 256 command,
     (case system command w of
        Inl f \<Rightarrow> Inl f
      | Inr w1 \<Rightarrow>
     (case password of
        None \<Rightarrow> Inl (NullDeref, w1)
      | Some p \<Rightarrow>
     (case strcmp p (''admin123'' @ [NUL]) of
        Inl e \<Rightarrow> Inl (e, w1)
      | Inr r \<Rightarrow>
          if r = 0 then
            (case printf ''Admin access granted\<newline>'' [] w1 of
               Inl f \<Rightarrow> Inl f
             | Inr w2 \<Rightarrow> Inr ((), this, w2))
          else Inr ((), this, w1))))))))"

text \<open>
  \<^verbatim>\<open>processUserData\<close>. The function returns nothing; so that what it has done to its
  array can be told, the run gives back the memory at \<^verbatim>\<open>output\<close> as it is when the
  function returns.
\<close>

definition processUserData ::
  "c_int \<Rightarrow> char_ptr \<Rightarrow> c_int \<Rightarrow> world \<Rightarrow> (buffer \<times> world) run" where
  "processUserData held data len w =
     (case memcpy_run (replicate 100 None) data (size_t_of_int len) of
        Inl e \<Rightarrow> ([], Inl (e, w))
      | Inr output \<Rightarrow>
          (let status = (None :: c_int option) in
           case read_local held status of
             (reads, s) \<Rightarrow>
               (overrun 100 output @ reads,
                if s = 0 then
                  (case printf ''Success\<newline>'' [] w of
                     Inl f \<Rightarrow> Inl f
                   | Inr w1 \<Rightarrow> Inr (output, w1))
                else Inr (output, w))))"

section \<open>Strings in arrays\<close>

text \<open>
  A string is written \<open>s @ NUL # rest\<close>: the bytes \<open>s\<close> before the first terminator,
  and whatever follows it in the array.
\<close>

lemma strcpy_overflow:
  "NUL \<notin> set s \<Longrightarrow> length dst \<le> length s \<Longrightarrow>
   strcpy dst (s @ NUL # rest) = Inl BufferOverflow"
proof (induction s arbitrary: dst)
  case Nil
  then show ?case by simp
next
  case (Cons c s)
  then show ?case by (cases dst) auto
qed

lemma strcpy_fits:
  "NUL \<notin> set s \<Longrightarrow> length s < length dst \<Longrightarrow>
   strcpy dst (s @ NUL # rest) = Inr (map Some (s @ [NUL]) @ drop (Suc (length s)) dst)"
proof (induction s arbitrary: dst)
  case Nil
  then show ?case by (cases dst) auto
next
  case (Cons c s)
  then show ?case by (cases dst) auto
qed

lemma c_str_terminated: "NUL \<notin> set s \<Longrightarrow> c_str (s @ NUL # rest) = Inr s"
  by (induction s) auto

lemma buffer_str_terminated:
  "NUL \<notin> set s \<Longrightarrow> buffer_str (map Some (s @ [NUL]) @ rest) = Inr s"
  by (induction s) auto


subsection \<open>Decimal text\<close>

lemma digit_not_NUL: "d < 10 \<Longrightarrow> digit d \<noteq> NUL"
proof
  assume d: "d < 10" and "digit d = NUL"
  then have "(of_char (digit d) :: nat) = 0" by simp
  then have "(48 + d) mod 256 = 0" by (simp add: digit_def)
  with d show False by simp
qed

lemma dec_nat_no_NUL: "NUL \<notin> set (dec_nat n)"
proof (induction n rule: dec_nat.induct)
  case (1 n)
  show ?case
  proof (cases "n < 10")
    case True
    then show ?thesis using digit_not_NUL [of n] by (simp add: dec_nat.simps [of n])
  next
    case False
    have "n mod 10 < 10" by simp
    then have "digit (n mod 10) \<noteq> NUL" by (rule digit_not_NUL)
    with False 1 show ?thesis by (simp add: dec_nat.simps [of n])
  qed
qed

lemma dec_int_no_NUL: "NUL \<notin> set (dec_int i)"
  using dec_nat_no_NUL by (simp add: dec_int_def)

lemma length_dec_nat: "0 < k \<Longrightarrow> n < 10 ^ k \<Longrightarrow> length (dec_nat n) \<le> k"
proof (induction n arbitrary: k rule: dec_nat.induct)
  case (1 n)
  show ?case
  proof (cases "n < 10")
    case True
    with 1(2) show ?thesis by (simp add: dec_nat.simps [of n])
  next
    case False
    with 1(2,3) obtain j where k: "k = Suc j" by (cases k) auto
    with False 1(3) have j: "0 < j" by (cases j) auto
    from 1(3) k have "n div 10 < 10 ^ j"
      by (simp add: less_mult_imp_div_less mult.commute)
    with 1(1) [OF False j] have "length (dec_nat (n div 10)) \<le> j" .
    with False k show ?thesis by (simp add: dec_nat.simps [of n])
  qed
qed

text \<open>An \<^verbatim>\<open>int\<close> prints in at most eleven bytes: a sign and ten digits.\<close>

lemma length_dec_int: "length (dec_int (sint (i :: c_int))) \<le> 11"
proof -
  have lo: "- (2 ^ 31) \<le> sint i" using sint_ge [of i] by simp
  have hi: "sint i < 2 ^ 31" using sint_lt [of i] by simp
  have "nat \<bar>sint i\<bar> < 10 ^ 10" using lo hi by simp
  then have "length (dec_nat (nat \<bar>sint i\<bar>)) \<le> 10"
    by (intro length_dec_nat) simp_all
  then show ?thesis by (auto simp: dec_int_def abs_if)
qed

subsection \<open>The count of memcpy\<close>

lemma size_t_of_int_nonneg: "0 \<le> sint len \<Longrightarrow> size_t_of_int len = nat (sint len)"
proof -
  assume a: "0 \<le> sint len"
  have "sint len < 2 ^ 31" using sint_lt [of len] by simp
  then have "sint len < 2 ^ 64" by simp
  with a show ?thesis by (simp add: size_t_of_int_def)
qed


section \<open>UserService::authenticateUser\<close>

lemma vformat_auth_check:
  "NUL \<notin> set s \<Longrightarrow>
   vformat ''auth_check %s'' [ArgStr (Some (s @ NUL # rest))] = Inr (''auth_check '' @ s)"
  by (simp add: c_str_terminated)

lemma sprintf_auth_check:
  assumes "NUL \<notin> set s" and "length s < 245"
  shows "sprintf (replicate 256 None) ''auth_check %s'' [ArgStr (Some (s @ NUL # rest))] =
           Inr (map Some ((''auth_check '' @ s) @ [NUL]) @ replicate (244 - length s) None)"
  using assms by (simp add: sprintf_def vformat_auth_check del: vformat.simps)

lemma system_auth_check:
  assumes "NUL \<notin> set s"
  shows "system (map Some ((''auth_check '' @ s) @ [NUL]) @ pad) w =
           Inr (w\<lparr>sys_calls := sys_calls w @ [''auth_check '' @ s]\<rparr>)"
proof -
  from assms have "NUL \<notin> set (''auth_check '' @ s)" by simp
  then have "buffer_str (map Some ((''auth_check '' @ s) @ [NUL]) @ pad) =
      Inr (''auth_check '' @ s)"
    by (rule buffer_str_terminated)
  then show ?thesis by (simp add: system_def)
qed

lemma printf_admin:
  "printf ''Admin access granted\<newline>'' [] w =
     Inr (w\<lparr>stdout := stdout w @ ''Admin access granted\<newline>''\<rparr>)"
  by (simp add: printf_def)

text \<open>A username of 32 bytes or more: the execution ends in \<^verbatim>\<open>strcpy\<close>.\<close>

lemma authenticateUser_long:
  assumes "NUL \<notin> set s" and "32 \<le> length s"
  shows "authenticateUser this (Some (s @ NUL # rest)) password w = Inl (BufferOverflow, w)"
proof -
  from assms have "strcpy (replicate 32 None) (s @ NUL # rest) = Inl BufferOverflow"
    by (intro strcpy_overflow) simp_all
  then show ?thesis by (simp add: authenticateUser_def)
qed

text \<open>A shorter username: both copies fit, the command is run, and what is left is
  the comparison of the password.\<close>

lemma authenticateUser_short:
  assumes "NUL \<notin> set s" and "length s < 32"
  shows "authenticateUser this (Some (s @ NUL # rest)) password w =
     (case password of
        None \<Rightarrow> Inl (NullDeref, w\<lparr>sys_calls := sys_calls w @ [''auth_check '' @ s]\<rparr>)
      | Some p \<Rightarrow>
     (case strcmp p (''admin123'' @ [NUL]) of
        Inl e \<Rightarrow> Inl (e, w\<lparr>sys_calls := sys_calls w @ [''auth_check '' @ s]\<rparr>)
      | Inr r \<Rightarrow>
          if r = 0 then
            Inr ((), this, w\<lparr>sys_calls := sys_calls w @ [''auth_check '' @ s],
                              stdout := stdout w @ ''Admin access granted\<newline>''\<rparr>)
          else Inr ((), this, w\<lparr>sys_calls := sys_calls w @ [''auth_check '' @ s]\<rparr>)))"
proof -
  from assms have cp: "strcpy (replicate 32 None) (s @ NUL # rest) =
      Inr (map Some (s @ [NUL]) @ drop (Suc (length s)) (replicate 32 None))"
    by (intro strcpy_fits) simp_all
  from assms have sp:
    "sprintf (replicate 256 None) ''auth_check %s'' [ArgStr (Some (s @ NUL # rest))] =
       Inr (map Some ((''auth_check '' @ s) @ [NUL]) @ replicate (244 - length s) None)"
    by (intro sprintf_auth_check) simp_all
  show ?thesis
    unfolding authenticateUser_def
    by (simp only: cp sp system_auth_check [OF assms(1)] printf_admin option.case sum.case)
       (simp split: option.splits sum.splits)
qed

text \<open>
  C1. For a username that is a NUL-terminated string of 32 bytes or more,
  \<^verbatim>\<open>authenticateUser\<close> copies it with \<^verbatim>\<open>strcpy\<close> into the 32-byte array
  \<^verbatim>\<open>buffer\<close>; nothing checks the length, and the copy writes past the end of the array.
\<close>

theorem authenticateUser_strcpy_overflow:
  assumes "NUL \<notin> set s" and "32 \<le> length s"
  shows "strcpy (replicate 32 None) (s @ NUL # rest) = Inl BufferOverflow \<and>
         authenticateUser this (Some (s @ NUL # rest)) password w = Inl (BufferOverflow, w)"
proof
  from assms show "strcpy (replicate 32 None) (s @ NUL # rest) = Inl BufferOverflow"
    by (intro strcpy_overflow) simp_all
  from assms show
    "authenticateUser this (Some (s @ NUL # rest)) password w = Inl (BufferOverflow, w)"
    by (rule authenticateUser_long)
qed

theorem authenticateUser_strcpy_overflow_witness:
  "NUL \<notin> set (replicate 32 (CHR ''a'')) \<and> 32 \<le> length (replicate 32 (CHR ''a'')) \<and>
   strcpy (replicate 32 None) (replicate 32 (CHR ''a'') @ [NUL]) = Inl BufferOverflow \<and>
   authenticateUser UserService_init (Some (replicate 32 (CHR ''a'') @ [NUL]))
     (Some (''admin123'' @ [NUL])) world_init = Inl (BufferOverflow, world_init)"
  using authenticateUser_strcpy_overflow [where s = "replicate 32 (CHR ''a'')" and rest = "[]"
    and this = UserService_init and password = "Some (''admin123'' @ [NUL])" and w = world_init]
  by simp

subsection \<open>The run past the arrays\<close>

lemma strcpy_run_terminated:
  "NUL \<notin> set s \<Longrightarrow>
   strcpy_run dst (s @ NUL # rest) = Inr (map Some (s @ [NUL]) @ drop (Suc (length s)) dst)"
proof (induction s arbitrary: dst)
  case Nil
  then show ?case by (simp add: drop_Suc)
next
  case (Cons c s)
  then show ?case by (auto simp: drop_Suc [of _ dst])
qed



lemma sprintf_run_auth_check:
  assumes "NUL \<notin> set s"
  shows "sprintf_run (replicate 256 None) ''auth_check %s'' [ArgStr (Some (s @ NUL # rest))] =
           Inr (map Some ((''auth_check '' @ s) @ [NUL]) @ replicate (244 - length s) None)"
  using assms by (simp add: sprintf_run_def vformat_auth_check del: vformat.simps)

text \<open>The run on a username that is a string.\<close>

lemma authenticateUser_run_string:
  assumes "NUL \<notin> set s"
  shows "authenticateUser_run this (Some (s @ NUL # rest)) password w =
     ((if 32 \<le> length s then [BufferOverflow] else []) @
      (if 245 \<le> length s then [BufferOverflow] else []),
      (case password of
        None \<Rightarrow> Inl (NullDeref, w\<lparr>sys_calls := sys_calls w @ [''auth_check '' @ s]\<rparr>)
      | Some p \<Rightarrow>
     (case strcmp p (''admin123'' @ [NUL]) of
        Inl e \<Rightarrow> Inl (e, w\<lparr>sys_calls := sys_calls w @ [''auth_check '' @ s]\<rparr>)
      | Inr r \<Rightarrow>
          if r = 0 then
            Inr ((), this, w\<lparr>sys_calls := sys_calls w @ [''auth_check '' @ s],
                              stdout := stdout w @ ''Admin access granted\<newline>''\<rparr>)
          else Inr ((), this, w\<lparr>sys_calls := sys_calls w @ [''auth_check '' @ s]\<rparr>))))"
proof -
  have cp: "strcpy_run (replicate 32 None) (s @ NUL # rest) =
      Inr (map Some (s @ [NUL]) @ drop (Suc (length s)) (replicate 32 None))"
    using assms by (rule strcpy_run_terminated)
  have sp:
    "sprintf_run (replicate 256 None) ''auth_check %s'' [ArgStr (Some (s @ NUL # rest))] =
       Inr (map Some ((''auth_check '' @ s) @ [NUL]) @ replicate (244 - length s) None)"
    using assms by (rule sprintf_run_auth_check)
  have o1: "overrun 32 (map Some (s @ [NUL]) @ drop (Suc (length s)) (replicate 32 None)) =
      (if 32 \<le> length s then [BufferOverflow] else [])"
    by (auto simp: overrun_def)
  have o2: "overrun 256 (map Some ((''auth_check '' @ s) @ [NUL]) @
      replicate (244 - length s) None) = (if 245 \<le> length s then [BufferOverflow] else [])"
    by (auto simp: overrun_def)
  show ?thesis
    unfolding authenticateUser_run_def
    by (simp only: cp sp o1 o2 system_auth_check [OF assms] printf_admin option.case sum.case)
       (simp split: option.splits sum.splits)
qed



text \<open>The two readings of \<^verbatim>\<open>authenticateUser\<close>: the first ends where the second
  records its first overrun, and they are the same run when there is none.\<close>

lemma authenticateUser_run_first_fault:
  assumes "NUL \<notin> set s"
  shows "authenticateUser this (Some (s @ NUL # rest)) password w =
     (case authenticateUser_run this (Some (s @ NUL # rest)) password w of
        ([], r) \<Rightarrow> r
      | (e # es, r) \<Rightarrow> Inl (e, w))"
proof (cases "length s < 32")
  case True
  then show ?thesis
    by (simp add: authenticateUser_short [OF assms True] authenticateUser_run_string [OF assms])
next
  case False
  then have "32 \<le> length s" by simp
  then show ?thesis
    by (simp add: authenticateUser_long [OF assms] authenticateUser_run_string [OF assms])
qed







section \<open>UserService::getUserToken\<close>

lemma vformat_token: "vformat ''token_%d'' [ArgInt i] = Inr (''token_'' @ dec_int (sint i))"
  by simp

lemma sprintf_token:
  "sprintf (replicate 64 None) ''token_%d'' [ArgInt i] =
     Inr (map Some ((''token_'' @ dec_int (sint i)) @ [NUL]) @
          replicate (57 - length (dec_int (sint i))) None)"
  using length_dec_int [of i] by (simp add: sprintf_def vformat_token del: vformat.simps)

lemma getUserToken_result:
  "getUserToken this userId w =
     Inr (length (heap w), this,
          w\<lparr>heap := heap w @
             [\<lparr>bytes = map Some ((''token_'' @ dec_int (sint userId)) @ [NUL]) @
                        replicate (57 - length (dec_int (sint userId))) None,
               live = False\<rparr>]\<rparr>)"
  by (simp add: getUserToken_def new_char_array_def heap_sprintf_def heap_block_def
      delete_array_def sprintf_token del: vformat.simps)

text \<open>
  C3. For every \<^verbatim>\<open>userId\<close>, \<^verbatim>\<open>getUserToken\<close> returns a pointer to a block that it
  has allocated itself (the free store as it was is untouched), of 64 bytes, that holds
  the string \<^verbatim>\<open>token_\<close> followed by the decimal text of \<^verbatim>\<open>userId\<close>, and that has
  been deallocated before the return: reading a string through the returned pointer is
  a use after free.
\<close>

theorem getUserToken_use_after_free:
  "\<exists>w'. getUserToken this userId w = Inr (length (heap w), this, w') \<and>
         heap w' = heap w @ [heap w' ! length (heap w)] \<and>
         length (bytes (heap w' ! length (heap w))) = 64 \<and>
         buffer_str (bytes (heap w' ! length (heap w))) =
           Inr (''token_'' @ dec_int (sint userId)) \<and>
         \<not> live (heap w' ! length (heap w)) \<and>
         heap_str w' (length (heap w)) = Inl UseAfterFree"
proof -
  have "NUL \<notin> set (''token_'' @ dec_int (sint userId))"
    using dec_int_no_NUL [of "sint userId"] by simp
  then have "buffer_str (map Some ((''token_'' @ dec_int (sint userId)) @ [NUL]) @
      replicate (57 - length (dec_int (sint userId))) None) =
      Inr (''token_'' @ dec_int (sint userId))"
    by (rule buffer_str_terminated)
  then show ?thesis
    using length_dec_int [of userId]
    by (simp add: getUserToken_result heap_str_def heap_block_def)
qed

section \<open>buildQuery\<close>

text \<open>
  C4. For every string \<^verbatim>\<open>userInput\<close>, \<^verbatim>\<open>buildQuery\<close> returns the text
  \<^verbatim>\<open>SELECT * FROM users WHERE id = \<close> followed by the input as it is: what comes after
  the fixed text is the input, byte for byte, so SQL in the input becomes SQL of the
  query.
\<close>

theorem buildQuery_verbatim:
  "buildQuery userInput = ''SELECT * FROM users WHERE id = '' @ userInput \<and>
   drop (length ''SELECT * FROM users WHERE id = '') (buildQuery userInput) = userInput \<and>
   buildQuery ''0 OR 1=1; DROP TABLE users'' =
     ''SELECT * FROM users WHERE id = 0 OR 1=1; DROP TABLE users''"
  by (simp add: buildQuery_def)

section \<open>connectToService\<close>

text \<open>
  C5. Called with a null \<^verbatim>\<open>config\<close>, \<^verbatim>\<open>connectToService\<close> prints
  \<^verbatim>\<open>Config is null\<close>, does not return, and goes on to read \<^verbatim>\<open>config->port\<close>: the
  execution ends in a null-pointer dereference, with the message printed.
\<close>

theorem connectToService_null:
  "connectToService None w =
     Inl (NullDeref, w\<lparr>stdout := stdout w @ ''Config is null\<newline>''\<rparr>)"
  by (simp add: connectToService_def printf_def)

section \<open>UserService::getSecretKey\<close>

text \<open>
  C6. When \<^verbatim>\<open>adminPassword\<close> is not null (and points to a string), \<^verbatim>\<open>getSecretKey\<close>
  returns that string; when it is null, the function flows off its end without a
  return statement, which is undefined.
\<close>

theorem getSecretKey_paths:
  assumes "NUL \<notin> set s"
  shows "getSecretKey (this\<lparr>adminPassword := Some (s @ NUL # rest)\<rparr>) w =
           Inr (s, this\<lparr>adminPassword := Some (s @ NUL # rest)\<rparr>, w) \<and>
         getSecretKey (this\<lparr>adminPassword := None\<rparr>) w = Inl (MissingReturn, w)"
  using assms by (simp add: getSecretKey_def c_str_terminated)

theorem getSecretKey_paths_witness:
  "NUL \<notin> set ''hunter2'' \<and>
   getSecretKey (UserService_init\<lparr>adminPassword := Some (''hunter2'' @ [NUL])\<rparr>) world_init =
     Inr (''hunter2'', UserService_init\<lparr>adminPassword := Some (''hunter2'' @ [NUL])\<rparr>,
          world_init) \<and>
   getSecretKey (UserService_init\<lparr>adminPassword := None\<rparr>) world_init =
     Inl (MissingReturn, world_init)"
  using getSecretKey_paths [where s = "''hunter2''" and rest = "[]"
    and this = UserService_init and w = world_init]
  by simp

section \<open>processUserData\<close>

lemma printf_success:
  "printf ''Success\<newline>'' [] w = Inr (w\<lparr>stdout := stdout w @ ''Success\<newline>''\<rparr>)"
  by (simp add: printf_def)

text \<open>A call whose copy can be made: the count is not negative, and \<^verbatim>\<open>data\<close> points to
  at least that many bytes (to anything when the count is zero).\<close>

lemma processUserData_copies:
  assumes "0 \<le> sint len" and "nat (sint len) \<le> length bs"
  shows "processUserData held (Some bs) len w =
     ((if 100 < sint len then [BufferOverflow] else []) @ [UninitRead],
      Inr (map Some (take (nat (sint len)) bs) @ replicate (100 - nat (sint len)) None,
           if held = 0 then w\<lparr>stdout := stdout w @ ''Success\<newline>''\<rparr> else w))"
proof -
  have hi: "sint len < 2 ^ 31" using sint_lt [of len] by simp
  then have "nat (sint len) < 2 ^ 63" by simp
  then show ?thesis
    using assms
    by (auto simp: processUserData_def memcpy_run_def size_t_of_int_nonneg read_local_def
        overrun_def printf_success)
qed








text \<open>
  C8. \<^verbatim>\<open>processUserData\<close> copies \<^verbatim>\<open>length\<close> bytes of \<^verbatim>\<open>data\<close> to the 100-byte
  array \<^verbatim>\<open>output\<close> with \<^verbatim>\<open>memcpy\<close>, and nothing compares \<^verbatim>\<open>length\<close> with 100. For
  every call with \<^verbatim>\<open>length\<close> not negative and \<^verbatim>\<open>data\<close> pointing to at least
  \<^verbatim>\<open>length\<close> bytes: when the function returns, the first \<^verbatim>\<open>length\<close> bytes at
  \<^verbatim>\<open>output\<close> are the first \<^verbatim>\<open>length\<close> bytes of \<^verbatim>\<open>data\<close>, and what is left of the
  array is untouched. Up to 100 the memory written is inside the array. Above 100 it is
  \<^verbatim>\<open>length\<close> bytes long: the copy has written past the end of the array, and it has
  done so exactly when \<^verbatim>\<open>length\<close> is greater than 100.
\<close>

theorem processUserData_memcpy_overflow:
  assumes "0 \<le> sint len" and "nat (sint len) \<le> length bs"
  shows "\<exists>faults output w'.
           processUserData held (Some bs) len w = (faults, Inr (output, w')) \<and>
           take (nat (sint len)) output = map Some (take (nat (sint len)) bs) \<and>
           drop (nat (sint len)) output = replicate (100 - nat (sint len)) None \<and>
           length output = max 100 (nat (sint len)) \<and>
           (BufferOverflow \<in> set faults \<longleftrightarrow> 100 < sint len)"
  using assms by (auto simp: processUserData_copies max_def)

theorem processUserData_memcpy_overflow_witness:
  "(0 \<le> sint (3 :: c_int) \<and> nat (sint (3 :: c_int)) \<le> length ''abc'' \<and>
    (\<exists>faults w'. processUserData 0 (Some ''abc'') 3 world_init =
       (faults, Inr (map Some ''abc'' @ replicate 97 None, w')) \<and>
       BufferOverflow \<notin> set faults)) \<and>
   (0 \<le> sint (101 :: c_int) \<and> nat (sint (101 :: c_int)) \<le> length (replicate 101 (CHR ''a'')) \<and>
    (\<exists>faults w'. processUserData 0 (Some (replicate 101 (CHR ''a''))) 101 world_init =
       (faults, Inr (replicate 101 (Some (CHR ''a'')), w')) \<and>
       BufferOverflow \<in> set faults))"
  using processUserData_memcpy_overflow [where len = 3 and bs = "''abc''" and held = 0
      and w = world_init]
    processUserData_memcpy_overflow [where len = 101 and bs = "replicate 101 (CHR ''a'')"
      and held = 0 and w = world_init]
  by (simp add: processUserData_copies)

section \<open>The default-constructed object\<close>

lemma authenticateUser_this:
  "authenticateUser this username password w = Inr (r, this', w') \<Longrightarrow> this' = this"
  by (auto simp: authenticateUser_def printf_def split: option.splits sum.splits if_splits)

lemma getUserToken_this: "getUserToken this userId w = Inr (r, this', w') \<Longrightarrow> this' = this"
  by (auto simp: getUserToken_def split: prod.splits sum.splits)

lemma getSecretKey_this: "getSecretKey this w = Inr (r, this', w') \<Longrightarrow> this' = this"
  by (auto simp: getSecretKey_def split: option.splits sum.splits)

lemma call_this: "call c this w = Inr (this', w') \<Longrightarrow> this' = this"
  by (cases c)
     (auto split: sum.splits dest: authenticateUser_this getUserToken_this getSecretKey_this)

lemma calls_this: "calls cs this w = Inr (this', w') \<Longrightarrow> this' = this"
proof (induction cs arbitrary: this w)
  case Nil
  then show ?case by simp
next
  case (Cons c cs)
  from Cons.prems obtain t v
    where c: "call c this w = Inr (t, v)" and cs: "calls cs t v = Inr (this', w')"
    by (auto split: sum.splits)
  from c have "t = this" by (rule call_this)
  moreover from cs have "this' = t" by (rule Cons.IH)
  ultimately show ?case by simp
qed

lemma getSecretKey_init:
  "getSecretKey UserService_init w = Inr (''SuperSecret123!'', UserService_init, w)"
  by (simp add: getSecretKey_def UserService_init_def)

text \<open>
  C10. A default-constructed \<^verbatim>\<open>UserService\<close> has \<^verbatim>\<open>adminPassword\<close> pointing to
  \<^verbatim>\<open>SuperSecret123!\<close>, and no member function assigns to it: after any sequence of
  member function calls that have returned, \<^verbatim>\<open>adminPassword\<close> still points to that
  string, so \<^verbatim>\<open>getSecretKey\<close> takes the branch with the return statement and returns
  \<^verbatim>\<open>SuperSecret123!\<close>; the null branch is never taken.
\<close>

theorem getSecretKey_default_constructed:
  assumes "calls cs UserService_init w = Inr (this, w')"
  shows "adminPassword this = Some (''SuperSecret123!'' @ [NUL]) \<and>
         getSecretKey this w' = Inr (''SuperSecret123!'', this, w') \<and>
         getSecretKey this w' \<noteq> Inl (MissingReturn, w')"
proof -
  from assms have "this = UserService_init" by (rule calls_this)
  then show ?thesis by (simp add: getSecretKey_init) (simp add: UserService_init_def)
qed

theorem getSecretKey_default_constructed_witness:
  "calls [AuthenticateUser (Some (''bob'' @ [NUL])) (Some (''admin123'' @ [NUL])),
          GetUserToken 7, GetSecretKey] UserService_init world_init =
     Inr (UserService_init,
          \<lparr>stdout = ''Admin access granted\<newline>'', sys_calls = [''auth_check bob''],
           heap = [\<lparr>bytes = map Some ''token_7'' @ Some NUL # replicate 56 None,
                    live = False\<rparr>]\<rparr>) \<and>
   adminPassword UserService_init = Some (''SuperSecret123!'' @ [NUL]) \<and>
   getSecretKey UserService_init
     \<lparr>stdout = ''Admin access granted\<newline>'', sys_calls = [''auth_check bob''],
      heap = [\<lparr>bytes = map Some ''token_7'' @ Some NUL # replicate 56 None,
               live = False\<rparr>]\<rparr> =
     Inr (''SuperSecret123!'', UserService_init,
          \<lparr>stdout = ''Admin access granted\<newline>'', sys_calls = [''auth_check bob''],
           heap = [\<lparr>bytes = map Some ''token_7'' @ Some NUL # replicate 56 None,
                    live = False\<rparr>]\<rparr>)"
proof -
  have run: "calls [AuthenticateUser (Some (''bob'' @ [NUL])) (Some (''admin123'' @ [NUL])),
          GetUserToken 7, GetSecretKey] UserService_init world_init =
     Inr (UserService_init,
          \<lparr>stdout = ''Admin access granted\<newline>'', sys_calls = [''auth_check bob''],
           heap = [\<lparr>bytes = map Some ''token_7'' @ Some NUL # replicate 56 None,
                    live = False\<rparr>]\<rparr>)"
    by code_simp
  from getSecretKey_default_constructed [OF run] run show ?thesis by simp
qed

end
